theory Spec2Isabelle
  imports Complex_Main "HOL-Library.AList"
begin

section \<open>Constants of \<^verbatim>\<open>aeneas.globalconstants\<close>\<close>

text \<open>
  Modelled from the spec: the module \<^verbatim>\<open>aeneas/globalconstants.py\<close> is not part of the
  sources at hand. The docstrings of \<^verbatim>\<open>globalfunctions.py\<close> and the spec write the
  configuration string as \<^verbatim>\<open>key_1=value_1|key_2=value_2|...|key_n=value_n\<close>, so the pair
  separator is the one-character string \<^verbatim>\<open>|\<close> and the assignment symbol is the
  one-character string \<^verbatim>\<open>=\<close>. The two XML tag names are not fixed by either text;
  they are parameters of \<open>config_xml_to_dict\<close> below.
\<close>

definition CONFIG_STRING_SEPARATOR_SYMBOL :: char where
  "CONFIG_STRING_SEPARATOR_SYMBOL = CHR ''|''"

definition CONFIG_STRING_ASSIGNMENT_SYMBOL :: char where
  "CONFIG_STRING_ASSIGNMENT_SYMBOL = CHR ''=''"

section \<open>Python string operations\<close>

text \<open>
  Strings are lists of \<^typ>\<open>char\<close>: a Python 2 byte string is the list of its bytes, and
  text that a library hands over as a \<^verbatim>\<open>unicode\<close> object is the list of its characters in
  an encoding that keeps the ASCII characters as single bytes (UTF-8). Splitting on an ASCII
  character, joining, concatenation and the test for emptiness are the same on a text and on
  its encoding. \<open>py_split c s\<close> is \<^verbatim>\<open>s.split(c)\<close> for a one-character separator: it
  always returns at least one token, \<^verbatim>\<open>"".split("=") == [""]\<close>.
\<close>

fun py_split :: "char \<Rightarrow> string \<Rightarrow> string list" where
  "py_split c [] = [[]]"
| "py_split c (x # xs) =
     (if x = c then [] # py_split c xs
      else (case py_split c xs of
              [] \<Rightarrow> [[x]]
            | t # ts \<Rightarrow> (x # t) # ts))"

text \<open>\<open>py_join c xs\<close> is \<^verbatim>\<open>c.join(xs)\<close>.\<close>

fun py_join :: "char \<Rightarrow> string list \<Rightarrow> string" where
  "py_join c [] = []"
| "py_join c [x] = x"
| "py_join c (x # y # ys) = x @ c # py_join c (y # ys)"

text \<open>
  \<^verbatim>\<open>s.splitlines()\<close> of a byte string: a line ends at \<^verbatim>\<open>\n\<close>, \<^verbatim>\<open>\r\<close> or
  \<^verbatim>\<open>\r\n\<close>; the line breaks are dropped, and there is no empty last line after a final
  line break. The first argument holds the current line, reversed.
\<close>

fun splitlines_from :: "string \<Rightarrow> string \<Rightarrow> string list" where
  "splitlines_from cur [] = (if cur = [] then [] else [rev cur])"
| "splitlines_from cur [x] =
     (if x = CHR 0x0A \<or> x = CHR 0x0D then [rev cur] else [rev (x # cur)])"
| "splitlines_from cur (x # y # ys) =
     (if x = CHR 0x0D \<and> y = CHR 0x0A then rev cur # splitlines_from [] ys
      else if x = CHR 0x0A \<or> x = CHR 0x0D then rev cur # splitlines_from [] (y # ys)
      else splitlines_from (x # cur) (y # ys))"

definition splitlines :: "string \<Rightarrow> string list" where
  "splitlines s = splitlines_from [] s"

text \<open>
  \<^verbatim>\<open>s.strip()\<close> depends on the type of \<^verbatim>\<open>s\<close>. On a \<^verbatim>\<open>unicode\<close> object it removes every
  leading and trailing character that the Unicode database of the running Python classifies
  as whitespace (U+00A0, U+2000 to U+200A, U+3000 and others besides the ASCII ones); the
  functions that call it on XML text take it as the parameter \<open>strip\<close>. On a byte string
  (\<^verbatim>\<open>str.strip\<close>, which is what XML text made of ASCII characters gets) it removes space,
  tab, line feed, carriage return, vertical tab and form feed: that is \<open>str_strip\<close>.
\<close>

definition str_isspace :: "char \<Rightarrow> bool" where
  "str_isspace c \<longleftrightarrow> c \<in> {CHR '' '', CHR 0x09, CHR 0x0A, CHR 0x0D, CHR 0x0B, CHR 0x0C}"

definition str_strip :: "string \<Rightarrow> string" where
  "str_strip s = rev (dropWhile str_isspace (rev (dropWhile str_isspace s)))"

section \<open>The result object\<close>

text \<open>
  Modelled from the spec: the class of the \<^verbatim>\<open>result\<close> argument is defined elsewhere in
  the package. The spec describes it as a sink that accumulates warnings and errors and
  carries an overall pass/fail flag; the functions below assign \<^verbatim>\<open>result.passed\<close> and
  call \<^verbatim>\<open>result.add_error(msg)\<close> and \<^verbatim>\<open>result.add_warning(msg)\<close>, each of which
  appends one message.
\<close>

record Result =
  passed :: bool
  errors :: "string list"
  warnings :: "string list"

definition add_error :: "string \<Rightarrow> Result \<Rightarrow> Result" where
  "add_error msg r = r\<lparr>errors := errors r @ [msg]\<rparr>"

definition add_warning :: "string \<Rightarrow> Result \<Rightarrow> Result" where
  "add_warning msg r = r\<lparr>warnings := warnings r @ [msg]\<rparr>"

section \<open>Dictionaries\<close>

text \<open>
  A \<^verbatim>\<open>dict\<close> from strings to strings is an association list with distinct keys, in
  iteration order. \<open>dict_setitem\<close> is \<^verbatim>\<open>dictionary[key] = value\<close>: an existing key keeps its
  place and takes the new value, a new key goes to the end. Python's \<^verbatim>\<open>==\<close> on dicts
  ignores the order: two dicts are equal iff \<^const>\<open>map_of\<close> agrees on them. Theorems
  about \<open>config_dict_to_string\<close> hold for every iteration order of the argument.
\<close>

type_synonym dict = "(string \<times> string) list"

definition dict_setitem :: "string \<Rightarrow> string \<Rightarrow> dict \<Rightarrow> dict" where
  "dict_setitem key val d = AList.update key val d"

section \<open>The configuration codec\<close>

definition config_txt_to_string :: "string option \<Rightarrow> string option" where
  "config_txt_to_string string =
     (case string of
        None \<Rightarrow> None
      | Some s \<Rightarrow>
          Some (py_join CONFIG_STRING_SEPARATOR_SYMBOL
                  (filter (\<lambda>l. length l > 0) (splitlines s))))"

text \<open>The message of \<^verbatim>\<open>"Invalid key=value string: '%s'" % pair\<close>.\<close>

definition invalid_pair_message :: "string \<Rightarrow> string" where
  "invalid_pair_message pair = ''Invalid key=value string: '' @ [CHR 0x27] @ pair @ [CHR 0x27]"

text \<open>
  The loop of \<^verbatim>\<open>pairs_to_dict\<close>, with the dictionary built so far and the optional result
  object (\<open>None\<close> is Python's \<^verbatim>\<open>None\<close>) passed along.
\<close>

fun pairs_to_dict_loop :: "string list \<Rightarrow> dict \<Rightarrow> Result option \<Rightarrow> dict \<times> Result option" where
  "pairs_to_dict_loop [] dictionary result = (dictionary, result)"
| "pairs_to_dict_loop (pair # pairs) dictionary result =
     (if length pair > 0 then
        (let tokens = py_split CONFIG_STRING_ASSIGNMENT_SYMBOL pair in
         if length tokens = 2 \<and> length (tokens ! 0) > 0 \<and> length (tokens ! 1) > 0
         then pairs_to_dict_loop pairs (dict_setitem (tokens ! 0) (tokens ! 1) dictionary) result
         else (case result of
                 Some r \<Rightarrow>
                   pairs_to_dict_loop pairs dictionary (Some (add_warning (invalid_pair_message pair) r))
               | None \<Rightarrow> pairs_to_dict_loop pairs dictionary None))
      else pairs_to_dict_loop pairs dictionary result)"

definition pairs_to_dict :: "string list \<Rightarrow> Result option \<Rightarrow> dict \<times> Result option" where
  "pairs_to_dict pairs result = pairs_to_dict_loop pairs [] result"

definition config_string_to_dict :: "string option \<Rightarrow> Result option \<Rightarrow> dict \<times> Result option" where
  "config_string_to_dict string result =
     (case string of
        None \<Rightarrow> ([], result)
      | Some s \<Rightarrow> pairs_to_dict (py_split CONFIG_STRING_SEPARATOR_SYMBOL s) result)"

definition config_dict_to_string :: "dict \<Rightarrow> string" where
  "config_dict_to_string dictionary =
     py_join CONFIG_STRING_SEPARATOR_SYMBOL
       (map (\<lambda>(key, val). key @ CONFIG_STRING_ASSIGNMENT_SYMBOL # val) dictionary)"

section \<open>XML configuration files\<close>

text \<open>
  The tree that \<^verbatim>\<open>lxml\<close> builds: an element has a tag, a text (Python's \<^verbatim>\<open>None\<close> when
  the element has no text before its first child) and its child nodes in document order.
  The parser itself is a library outside this package; \<open>config_xml_to_dict\<close> takes it
  as the parameter \<open>fromstring\<close>, which returns the root element or raises
  (\<open>Inl\<close>). The text of an element is a byte string when all its characters are ASCII and
  a \<^verbatim>\<open>unicode\<close> object otherwise; its \<^verbatim>\<open>strip\<close> method is the parameter \<open>strip\<close>.
\<close>

datatype element = Element (tag: string) (elem_text: "string option") (children: "element list")

text \<open>
  The function returns a \<^verbatim>\<open>dict\<close> on some paths and a \<^verbatim>\<open>list\<close> of \<^verbatim>\<open>dict\<close> on
  others; the two are different Python values, also when both are empty.
\<close>

datatype config_value = Dict dict | DictList "dict list"

text \<open>\<^verbatim>\<open>root.find(tag)\<close>: the first child with that tag, or \<^verbatim>\<open>None\<close>.\<close>

fun find_child :: "string \<Rightarrow> element list \<Rightarrow> element option" where
  "find_child t [] = None"
| "find_child t (e # es) = (if tag e = t then Some e else find_child t es)"

text \<open>
  The loop over the root's children on the job path; \<open>tasks_tag\<close> is
  \<^verbatim>\<open>gc.CONFIG_XML_TASKS_TAG\<close> and \<open>pairs\<close> the list built so far.
\<close>

fun job_pairs ::
  "(string \<Rightarrow> string) \<Rightarrow> string \<Rightarrow> element list \<Rightarrow> string list \<Rightarrow> string list" where
  "job_pairs strip tasks_tag [] pairs = pairs"
| "job_pairs strip tasks_tag (elem # elems) pairs =
     (if tag elem \<noteq> tasks_tag \<and> elem_text elem \<noteq> None
      then job_pairs strip tasks_tag elems
             (pairs @ [tag elem @ CONFIG_STRING_ASSIGNMENT_SYMBOL # strip (the (elem_text elem))])
      else job_pairs strip tasks_tag elems pairs)"

text \<open>The inner loop over the children of one task element.\<close>

fun task_pairs :: "(string \<Rightarrow> string) \<Rightarrow> element list \<Rightarrow> string list \<Rightarrow> string list" where
  "task_pairs strip [] pairs = pairs"
| "task_pairs strip (elem # elems) pairs =
     (if elem_text elem \<noteq> None
      then task_pairs strip elems
             (pairs @ [tag elem @ CONFIG_STRING_ASSIGNMENT_SYMBOL # strip (the (elem_text elem))])
      else task_pairs strip elems pairs)"

text \<open>
  The outer loop over the children of the tasks element; \<open>task_tag\<close> is
  \<^verbatim>\<open>gc.CONFIG_XML_TASK_TAG\<close>. \<^verbatim>\<open>pairs_to_dict(pairs)\<close> is called without a result
  object.
\<close>

fun tasks_loop ::
  "(string \<Rightarrow> string) \<Rightarrow> string \<Rightarrow> element list \<Rightarrow> dict list \<Rightarrow> dict list" where
  "tasks_loop strip task_tag [] output_list = output_list"
| "tasks_loop strip task_tag (task # tasks) output_list =
     (if tag task = task_tag
      then tasks_loop strip task_tag tasks
             (output_list @ [fst (pairs_to_dict (task_pairs strip (children task) []) None)])
      else tasks_loop strip task_tag tasks output_list)"

text \<open>The \<^verbatim>\<open>except:\<close> branch.\<close>

definition xml_except :: "Result \<Rightarrow> config_value \<times> Result" where
  "xml_except result =
     (Dict [], add_error ''An error occurred while parsing XML file'' (result\<lparr>passed := False\<rparr>))"

text \<open>
  \<^verbatim>\<open>config_xml_to_dict(contents, result, parse_job)\<close>. Iterating over the \<^verbatim>\<open>None\<close> that
  \<^verbatim>\<open>root.find\<close> returns when there is no tasks element raises \<^verbatim>\<open>TypeError\<close> inside the
  \<^verbatim>\<open>try\<close>, so that case ends in the \<^verbatim>\<open>except:\<close> branch as well.
\<close>

definition config_xml_to_dict ::
  "(string \<Rightarrow> 'e + element) \<Rightarrow> (string \<Rightarrow> string) \<Rightarrow> string \<Rightarrow> string \<Rightarrow> string \<Rightarrow> Result
     \<Rightarrow> bool \<Rightarrow> config_value \<times> Result" where
  "config_xml_to_dict fromstring strip tasks_tag task_tag contents result parse_job =
     (case fromstring contents of
        Inl exn \<Rightarrow> xml_except result
      | Inr xml_root \<Rightarrow>
          if parse_job
          then (Dict (fst (pairs_to_dict (job_pairs strip tasks_tag (children xml_root) []) None)),
                result)
          else (case find_child tasks_tag (children xml_root) of
                  None \<Rightarrow> xml_except result
                | Some tasks \<Rightarrow>
                    (DictList (tasks_loop strip task_tag (children tasks) []), result)))"

section \<open>Python numbers\<close>

text \<open>
  A Python \<^verbatim>\<open>float\<close> is an IEEE 754 binary64 number, modelled by the rational it denotes.
  \<open>fl x\<close> is the binary64 number nearest to \<open>x\<close>, ties going to the even significand:
  with \<open>e\<close> chosen so that \<open>2 ^ 52 \<le> \<bar>x\<bar> / 2 ^ e < 2 ^ 53\<close>, it is \<open>x / 2 ^ e\<close> rounded
  to an integer, times \<open>2 ^ e\<close>. Every arithmetic operation on floats returns \<open>fl\<close> of the
  exact result. Overflow, subnormal numbers, infinities, NaN and the negative zero are outside
  the model.
\<close>

fun bitlen :: "nat \<Rightarrow> nat" where
  "bitlen n = (if n = 0 then 0 else Suc (bitlen (n div 2)))"

declare bitlen.simps [simp del]

text \<open>\<open>ilog2 x\<close> is \<open>\<lfloor>log\<^sub>2 x\<rfloor>\<close> for \<open>0 < x\<close>.\<close>

definition ilog2 :: "rat \<Rightarrow> int" where
  "ilog2 x = (if 1 \<le> x then int (bitlen (nat \<lfloor>x\<rfloor>)) - 1
              else - int (bitlen (nat (\<lceil>1 / x\<rceil> - 1))))"

definition round_half_even :: "rat \<Rightarrow> int" where
  "round_half_even x =
     (let f = \<lfloor>x\<rfloor>; d = x - of_int f
      in if d < 1 / 2 then f else if 1 / 2 < d then f + 1
         else if even f then f else f + 1)"

definition fl :: "rat \<Rightarrow> rat" where
  "fl x = (if x = 0 then 0
           else (let e = ilog2 \<bar>x\<bar> - 52
                 in of_int (round_half_even (x / 2 powi e)) * 2 powi e))"

text \<open>
  The numbers of Python 2, as far as this module uses them: \<^verbatim>\<open>int\<close> and \<^verbatim>\<open>float\<close>.
  An operation on two ints stays in the ints (\<^verbatim>\<open>/\<close> is floor division there); any other
  operation converts both operands to float. The only divisors in the module are the literals
  \<^verbatim>\<open>3600\<close> and \<^verbatim>\<open>60\<close>, so \<^verbatim>\<open>ZeroDivisionError\<close> cannot occur. \<^verbatim>\<open>math.floor\<close> returns a
  float.
\<close>

datatype pynum = PyInt int | PyFloat rat

text \<open>The float that a decimal literal such as \<^verbatim>\<open>3612.345\<close> denotes.\<close>

definition float_literal :: "rat \<Rightarrow> pynum" where
  "float_literal q = PyFloat (fl q)"

definition to_float :: "pynum \<Rightarrow> rat" where
  "to_float x = (case x of PyInt i \<Rightarrow> fl (of_int i) | PyFloat r \<Rightarrow> r)"

definition num_div :: "pynum \<Rightarrow> pynum \<Rightarrow> pynum" where
  "num_div a b =
     (case (a, b) of
        (PyInt i, PyInt j) \<Rightarrow> PyInt (i div j)
      | _ \<Rightarrow> PyFloat (fl (to_float a / to_float b)))"

definition num_mul :: "pynum \<Rightarrow> pynum \<Rightarrow> pynum" where
  "num_mul a b =
     (case (a, b) of
        (PyInt i, PyInt j) \<Rightarrow> PyInt (i * j)
      | _ \<Rightarrow> PyFloat (fl (to_float a * to_float b)))"

definition num_sub :: "pynum \<Rightarrow> pynum \<Rightarrow> pynum" where
  "num_sub a b =
     (case (a, b) of
        (PyInt i, PyInt j) \<Rightarrow> PyInt (i - j)
      | _ \<Rightarrow> PyFloat (fl (to_float a - to_float b)))"

definition math_floor :: "pynum \<Rightarrow> pynum" where
  "math_floor x = PyFloat (of_int \<lfloor>to_float x\<rfloor>)"

text \<open>\<^verbatim>\<open>int(x)\<close>, which the \<^verbatim>\<open>%d\<close> conversion applies to a float: truncation towards zero.\<close>

definition py_int :: "pynum \<Rightarrow> int" where
  "py_int x = (case x of PyInt i \<Rightarrow> i | PyFloat r \<Rightarrow> (if 0 \<le> r then \<lfloor>r\<rfloor> else \<lceil>r\<rceil>))"

section \<open>String formatting\<close>

fun digits :: "nat \<Rightarrow> string" where
  "digits n =
     (if n < 10 then [''0123456789'' ! n]
      else digits (n div 10) @ [''0123456789'' ! (n mod 10)])"

declare digits.simps [simp del]

definition zero_pad :: "nat \<Rightarrow> string \<Rightarrow> string" where
  "zero_pad w s = replicate (w - length s) (CHR ''0'') @ s"

text \<open>\<^verbatim>\<open>"%0wd" % x\<close>: the sign counts towards the width \<open>w\<close>.\<close>

definition format_d :: "nat \<Rightarrow> pynum \<Rightarrow> string" where
  "format_d w x =
     (let n = py_int x
      in if n < 0 then CHR ''-'' # zero_pad (w - 1) (digits (nat (- n)))
         else zero_pad w (digits (nat n)))"

text \<open>
  \<^verbatim>\<open>"%.3f" % x\<close>: the decimal expansion of the float, correctly rounded to three places
  (ties to even, on the exact binary value).
\<close>

definition format_3f :: "pynum \<Rightarrow> string" where
  "format_3f x =
     (let r = to_float x; n = round_half_even (\<bar>r\<bar> * 1000)
      in (if r < 0 then ''-'' else []) @ digits (nat (n div 1000)) @ ''.''
           @ zero_pad 3 (digits (nat (n mod 1000))))"

section \<open>The time formatters\<close>

definition time_to_ssmmm :: "pynum \<Rightarrow> string" where
  "time_to_ssmmm time_value = format_3f time_value"

definition time_to_hhmmssmmm :: "pynum \<Rightarrow> string \<Rightarrow> string" where
  "time_to_hhmmssmmm time_value decimal_separator =
     (let tmp = time_value;
          hours = math_floor (num_div tmp (PyInt 3600));
          tmp = num_sub tmp (num_mul hours (PyInt 3600));
          minutes = math_floor (num_div tmp (PyInt 60));
          tmp = num_sub tmp (num_mul minutes (PyInt 60));
          seconds = math_floor tmp;
          tmp = num_sub tmp seconds;
          milliseconds = math_floor (num_mul tmp (PyInt 1000))
      in format_d 2 hours @ '':'' @ format_d 2 minutes @ '':'' @ format_d 2 seconds
           @ decimal_separator @ format_d 3 milliseconds)"

definition time_to_srt :: "pynum \<Rightarrow> string" where
  "time_to_srt time_value = time_to_hhmmssmmm time_value '',''"

section \<open>Notions used in the statements\<close>

text \<open>
  A token is well formed when splitting it on the assignment symbol gives exactly two
  non-empty parts; \<open>pair_key\<close> and \<open>pair_value\<close> are the two parts. A token is
  malformed when it is not empty and not well formed: these are the tokens that
  \<^verbatim>\<open>pairs_to_dict\<close> reports.
\<close>

definition well_formed :: "string \<Rightarrow> bool" where
  "well_formed pair \<longleftrightarrow>
     (case py_split CONFIG_STRING_ASSIGNMENT_SYMBOL pair of
        [k, v] \<Rightarrow> k \<noteq> [] \<and> v \<noteq> []
      | _ \<Rightarrow> False)"

definition pair_key :: "string \<Rightarrow> string" where
  "pair_key pair = py_split CONFIG_STRING_ASSIGNMENT_SYMBOL pair ! 0"

definition pair_value :: "string \<Rightarrow> string" where
  "pair_value pair = py_split CONFIG_STRING_ASSIGNMENT_SYMBOL pair ! 1"

definition malformed :: "string \<Rightarrow> bool" where
  "malformed pair \<longleftrightarrow> pair \<noteq> [] \<and> \<not> well_formed pair"

text \<open>
  What every entry of a dictionary built by \<^verbatim>\<open>pairs_to_dict\<close> satisfies: key and value are
  non-empty and free of the assignment symbol.
\<close>

definition clean_entry :: "string \<times> string \<Rightarrow> bool" where
  "clean_entry kv \<longleftrightarrow>
     fst kv \<noteq> [] \<and> snd kv \<noteq> [] \<and>
     CONFIG_STRING_ASSIGNMENT_SYMBOL \<notin> set (fst kv) \<and>
     CONFIG_STRING_ASSIGNMENT_SYMBOL \<notin> set (snd kv)"

definition clean_value :: "config_value \<Rightarrow> bool" where
  "clean_value cv \<longleftrightarrow>
     (case cv of
        Dict d \<Rightarrow> list_all clean_entry d
      | DictList ds \<Rightarrow> list_all (list_all clean_entry) ds)"

text \<open>
  The keys and values that the round trip through the configuration string preserves:
  non-empty, and free of both separator symbols.
\<close>

definition plain :: "string \<Rightarrow> bool" where
  "plain s \<longleftrightarrow>
     s \<noteq> [] \<and> CONFIG_STRING_SEPARATOR_SYMBOL \<notin> set s \<and> CONFIG_STRING_ASSIGNMENT_SYMBOL \<notin> set s"

section \<open>Splitting and joining\<close>

lemma py_split_not_Nil: "py_split c s \<noteq> []"
  by (induction s) (auto split: list.splits)

lemma py_split_no_sep: "c \<notin> set s \<Longrightarrow> py_split c s = [s]"
  by (induction s) auto

lemma py_split_append_sep: "c \<notin> set k \<Longrightarrow> py_split c (k @ c # rest) = k # py_split c rest"
  by (induction k) auto

lemma py_split_tokens_no_sep: "t \<in> set (py_split c s) \<Longrightarrow> c \<notin> set t"
  by (induction s arbitrary: t) (auto split: if_splits list.splits)

lemma py_split_tokens_subset: "\<forall>t\<in>set (py_split c s). set t \<subseteq> set s"
  by (induction s) (fastforce split: if_splits list.splits)+

lemma py_split_join:
  "xs \<noteq> [] \<Longrightarrow> \<forall>x\<in>set xs. c \<notin> set x \<Longrightarrow> py_split c (py_join c xs) = xs"
  by (induction c xs rule: py_join.induct) (auto simp: py_split_no_sep py_split_append_sep)

lemma py_join_split: "py_join c (py_split c s) = s"
proof (induction s)
  case Nil
  then show ?case by simp
next
  case (Cons x s)
  obtain t ts where ts: "py_split c s = t # ts"
    using py_split_not_Nil [of c s] by (cases "py_split c s") auto
  show ?case using Cons.IH ts by (cases ts) auto
qed

lemma py_split_append:
  "py_split c (s @ c # r) = py_split c s @ py_split c r"
proof (induction s)
  case Nil
  then show ?case by simp
next
  case (Cons x s)
  obtain t ts where ts: "py_split c s = t # ts"
    using py_split_not_Nil [of c s] by (cases "py_split c s") auto
  show ?case using Cons.IH ts by simp
qed

lemma well_formed_iff:
  "well_formed p \<longleftrightarrow>
     length (py_split CONFIG_STRING_ASSIGNMENT_SYMBOL p) = 2 \<and>
     length (py_split CONFIG_STRING_ASSIGNMENT_SYMBOL p ! 0) > 0 \<and>
     length (py_split CONFIG_STRING_ASSIGNMENT_SYMBOL p ! 1) > 0"
  by (auto simp: well_formed_def split: list.splits)

lemma well_formed_split:
  "well_formed p \<Longrightarrow> py_split CONFIG_STRING_ASSIGNMENT_SYMBOL p = [pair_key p, pair_value p]"
  by (auto simp: well_formed_def pair_key_def pair_value_def split: list.splits)

lemma loop_Cons:
  "pairs_to_dict_loop (p # ps) d r =
     (if well_formed p then pairs_to_dict_loop ps (dict_setitem (pair_key p) (pair_value p) d) r
      else if malformed p
        then pairs_to_dict_loop ps d (map_option (add_warning (invalid_pair_message p)) r)
      else pairs_to_dict_loop ps d r)"
proof (cases "p = []")
  case True
  then show ?thesis by (simp add: malformed_def well_formed_def)
next
  case False
  then show ?thesis
    by (cases r) (simp_all add: malformed_def well_formed_iff pair_key_def pair_value_def Let_def)
qed

lemma loop_fst:
  "fst (pairs_to_dict_loop ps d r) =
     fold (\<lambda>p. dict_setitem (pair_key p) (pair_value p)) (filter well_formed ps) d"
proof (induction ps arbitrary: d r)
  case Nil
  then show ?case by simp
next
  case (Cons p ps)
  show ?case unfolding loop_Cons by (simp add: Cons.IH)
qed

lemma loop_snd:
  "snd (pairs_to_dict_loop ps d r) =
     map_option (\<lambda>res. res\<lparr>warnings := warnings res @ map invalid_pair_message (filter malformed ps)\<rparr>) r"
proof (induction ps arbitrary: d r)
  case Nil
  then show ?case by (cases r) simp_all
next
  case (Cons p ps)
  have wm: "well_formed p \<Longrightarrow> \<not> malformed p" by (simp add: malformed_def)
  show ?case unfolding loop_Cons
    by (cases r) (auto simp: Cons.IH add_warning_def wm)
qed

lemma map_of_fold_setitem:
  "map_of (fold (\<lambda>p. dict_setitem (f p) (g p)) ps d) = map_of d ++ map_of (rev (map (\<lambda>p. (f p, g p)) ps))"
proof (induction ps arbitrary: d)
  case Nil
  then show ?case by simp
next
  case (Cons p ps)
  have "(map_of d)(f p \<mapsto> g p) ++ m = map_of d ++ ([f p \<mapsto> g p] ++ m)" for m
    by (rule ext) (simp add: map_add_def split: option.splits)
  then show ?case
    by (simp add: Cons.IH) (simp add: dict_setitem_def update_conv')
qed

lemma map_of_rev_distinct: "distinct (map fst xs) \<Longrightarrow> map_of (rev xs) = map_of xs"
proof -
  assume d: "distinct (map fst xs)"
  then have "distinct (map fst (rev xs))" by (simp flip: rev_map)
  then show ?thesis using d by (simp add: map_of_inject_set)
qed

lemma list_all_update:
  "list_all P al \<Longrightarrow> P (k, v) \<Longrightarrow> list_all P (AList.update k v al)"
  by (induction al) auto

lemma loop_invariant:
  assumes "list_all Q d" "\<forall>p\<in>set ps. well_formed p \<longrightarrow> Q (pair_key p, pair_value p)"
  shows "list_all Q (fst (pairs_to_dict_loop ps d r))"
  using assms
proof (induction ps arbitrary: d r)
  case Nil
  then show ?case by simp
next
  case (Cons p ps)
  show ?case unfolding loop_Cons using Cons.prems
    by (auto intro!: Cons.IH simp: dict_setitem_def list_all_update)
qed

lemma well_formed_clean: "well_formed p \<Longrightarrow> clean_entry (pair_key p, pair_value p)"
proof -
  assume w: "well_formed p"
  from well_formed_split [OF w]
  have "pair_key p \<in> set (py_split CONFIG_STRING_ASSIGNMENT_SYMBOL p)"
       "pair_value p \<in> set (py_split CONFIG_STRING_ASSIGNMENT_SYMBOL p)" by simp_all
  then have "CONFIG_STRING_ASSIGNMENT_SYMBOL \<notin> set (pair_key p)"
            "CONFIG_STRING_ASSIGNMENT_SYMBOL \<notin> set (pair_value p)"
    by (simp_all add: py_split_tokens_no_sep)
  moreover from w have "pair_key p \<noteq> []" "pair_value p \<noteq> []"
    by (auto simp: well_formed_def pair_key_def pair_value_def split: list.splits)
  ultimately show ?thesis by (simp add: clean_entry_def)
qed

lemma distinct_loop:
  "distinct (map fst d) \<Longrightarrow> distinct (map fst (fst (pairs_to_dict_loop ps d r)))"
proof (induction ps arbitrary: d r)
  case Nil
  then show ?case by simp
next
  case (Cons p ps)
  show ?case unfolding loop_Cons using Cons.prems
    by (auto intro!: Cons.IH simp: dict_setitem_def distinct_update)
qed

lemma encode_well_formed:
  assumes "CONFIG_STRING_ASSIGNMENT_SYMBOL \<notin> set k" "CONFIG_STRING_ASSIGNMENT_SYMBOL \<notin> set v"
    "k \<noteq> []" "v \<noteq> []"
  shows "well_formed (k @ CONFIG_STRING_ASSIGNMENT_SYMBOL # v)"
    and "pair_key (k @ CONFIG_STRING_ASSIGNMENT_SYMBOL # v) = k"
    and "pair_value (k @ CONFIG_STRING_ASSIGNMENT_SYMBOL # v) = v"
  using assms
  by (simp_all add: well_formed_def pair_key_def pair_value_def py_split_append_sep py_split_no_sep)

section \<open>The round trip through the configuration string\<close>

lemma separators_differ: "CONFIG_STRING_SEPARATOR_SYMBOL \<noteq> CONFIG_STRING_ASSIGNMENT_SYMBOL"
  by (simp add: CONFIG_STRING_SEPARATOR_SYMBOL_def CONFIG_STRING_ASSIGNMENT_SYMBOL_def)

lemma pairs_to_dict_fst:
  "map_of (fst (pairs_to_dict ps r)) =
     map_of (rev (map (\<lambda>p. (pair_key p, pair_value p)) (filter well_formed ps)))"
  by (simp add: pairs_to_dict_def loop_fst map_of_fold_setitem)

lemma pairs_to_dict_snd:
  "snd (pairs_to_dict ps r) =
     map_option (\<lambda>res. res\<lparr>warnings := warnings res @ map invalid_pair_message (filter malformed ps)\<rparr>) r"
  by (simp add: pairs_to_dict_def loop_snd)

lemma roundtrip_tokens:
  assumes "\<forall>(k, v)\<in>set m. plain k \<and> plain v"
  defines "toks \<equiv> map (\<lambda>(key, val). key @ CONFIG_STRING_ASSIGNMENT_SYMBOL # val) m"
  shows "filter well_formed toks = toks" and "filter malformed toks = []"
    and "map (\<lambda>p. (pair_key p, pair_value p)) toks = m"
    and "\<forall>t\<in>set toks. CONFIG_STRING_SEPARATOR_SYMBOL \<notin> set t"
proof -
  have wf: "well_formed t" if "t \<in> set toks" for t
    using that assms(1) unfolding toks_def by (auto simp: plain_def encode_well_formed)
  then show "filter well_formed toks = toks" by simp
  from wf show "filter malformed toks = []" by (simp add: malformed_def)
  show "map (\<lambda>p. (pair_key p, pair_value p)) toks = m"
    using assms(1) unfolding toks_def
    by (induction m) (auto simp: plain_def encode_well_formed)
  show "\<forall>t\<in>set toks. CONFIG_STRING_SEPARATOR_SYMBOL \<notin> set t"
    using assms(1) separators_differ unfolding toks_def by (auto simp: plain_def)
qed

lemma roundtrip:
  assumes "distinct (map fst m)" "\<forall>(k, v)\<in>set m. plain k \<and> plain v"
  shows "map_of (fst (pairs_to_dict (py_split CONFIG_STRING_SEPARATOR_SYMBOL (config_dict_to_string m)) r)) = map_of m"
    and "snd (pairs_to_dict (py_split CONFIG_STRING_SEPARATOR_SYMBOL (config_dict_to_string m)) r) = r"
proof -
  let ?toks = "map (\<lambda>(key, val). key @ CONFIG_STRING_ASSIGNMENT_SYMBOL # val) m"
  let ?ps = "py_split CONFIG_STRING_SEPARATOR_SYMBOL (config_dict_to_string m)"
  note T = roundtrip_tokens [OF assms(2)]
  have "filter well_formed ?ps = ?toks \<and> filter malformed ?ps = []"
  proof (cases "m = []")
    case True
    then show ?thesis
      by (simp add: config_dict_to_string_def well_formed_def malformed_def)
  next
    case False
    then have "?toks \<noteq> []" by simp
    then have "?ps = ?toks"
      unfolding config_dict_to_string_def using T(4) by (rule py_split_join)
    then show ?thesis using T(1,2) by simp
  qed
  then have fw: "filter well_formed ?ps = ?toks" and fm: "filter malformed ?ps = []" by simp_all
  show "map_of (fst (pairs_to_dict ?ps r)) = map_of m"
    unfolding pairs_to_dict_fst fw T(3) using assms(1) by (rule map_of_rev_distinct)
  show "snd (pairs_to_dict ?ps r) = r"
    unfolding pairs_to_dict_snd fm by (cases r) simp_all
qed

text \<open>
  C1. Round trip: for every dictionary \<open>m\<close> (in any iteration order) whose keys and values
  are non-empty strings containing neither the pair separator nor the assignment symbol,
  \<^verbatim>\<open>config_string_to_dict(config_dict_to_string(m))\<close> equals \<open>m\<close>. A result object passed
  along receives no warning.
\<close>

theorem config_roundtrip:
  assumes "distinct (map fst m)" and "\<forall>(k, v)\<in>set m. plain k \<and> plain v"
  shows "map_of (fst (config_string_to_dict (Some (config_dict_to_string m)) result)) = map_of m
       \<and> snd (config_string_to_dict (Some (config_dict_to_string m)) result) = result"
  using roundtrip [OF assms] by (simp add: config_string_to_dict_def)

theorem config_roundtrip_witness:
  "distinct (map fst [(''a'', ''1''), (''b'', ''2'')])
   \<and> plain ''a'' \<and> plain ''1'' \<and> plain ''b'' \<and> plain ''2''
   \<and> config_dict_to_string [(''a'', ''1''), (''b'', ''2'')] = ''a=1|b=2''
   \<and> map_of (fst (config_string_to_dict (Some ''a=1|b=2'') None)) = map_of [(''a'', ''1''), (''b'', ''2'')]"
proof -
  have h1: "distinct (map fst [(''a'', ''1''), (''b'', ''2'')])" by simp
  have h2: "\<forall>(k, v)\<in>set [(''a'', ''1''), (''b'', ''2'')]. plain k \<and> plain v"
    by (simp add: plain_def CONFIG_STRING_SEPARATOR_SYMBOL_def CONFIG_STRING_ASSIGNMENT_SYMBOL_def)
  have e: "config_dict_to_string [(''a'', ''1''), (''b'', ''2'')] = ''a=1|b=2''"
    by (simp add: config_dict_to_string_def CONFIG_STRING_SEPARATOR_SYMBOL_def
        CONFIG_STRING_ASSIGNMENT_SYMBOL_def)
  have h3: "plain ''a'' \<and> plain ''1'' \<and> plain ''b'' \<and> plain ''2''"
    using h2 by simp
  from config_roundtrip [OF h1 h2, of None] h1 h3 e show ?thesis by simp
qed

text \<open>
  C3. Leniency: when the pairs list holds exactly one well-formed token \<open>good\<close> and exactly
  one malformed non-empty token \<open>bad\<close> (in either order, empty tokens aside),
  \<^verbatim>\<open>pairs_to_dict\<close> with a result object returns the one-entry dictionary of \<open>good\<close> and
  appends exactly one warning, the text \<^verbatim>\<open>Invalid key=value string: '\<close>\<open>bad\<close>\<^verbatim>\<open>'\<close> with
  the token \<open>bad\<close> between the quotes; errors and the pass flag stay as they were. Without
  a result object it returns the same dictionary and skips \<open>bad\<close> silently.
\<close>

theorem pairs_to_dict_lenient:
  assumes "filter well_formed pairs = [good]" and "filter malformed pairs = [bad]"
  shows "pairs_to_dict pairs (Some result) =
           ([(pair_key good, pair_value good)],
            Some (result\<lparr>warnings := warnings result @
                    [''Invalid key=value string: '' @ [CHR 0x27] @ bad @ [CHR 0x27]]\<rparr>))
       \<and> pairs_to_dict pairs None = ([(pair_key good, pair_value good)], None)"
proof -
  have f: "fst (pairs_to_dict pairs r) = [(pair_key good, pair_value good)]" for r
    by (simp add: pairs_to_dict_def loop_fst assms(1) dict_setitem_def)
  have "snd (pairs_to_dict pairs (Some result)) =
          Some (result\<lparr>warnings := warnings result @
                  [''Invalid key=value string: '' @ [CHR 0x27] @ bad @ [CHR 0x27]]\<rparr>)"
    by (simp add: pairs_to_dict_snd assms(2) invalid_pair_message_def)
  moreover have "snd (pairs_to_dict pairs None) = None"
    by (simp add: pairs_to_dict_snd)
  ultimately show ?thesis using f by (simp add: prod_eq_iff)
qed

theorem pairs_to_dict_lenient_witness:
  "filter well_formed [''a=b'', ''noequals''] = [''a=b'']
   \<and> filter malformed [''a=b'', ''noequals''] = [''noequals'']
   \<and> pairs_to_dict [''a=b'', ''noequals''] (Some \<lparr>passed = True, errors = [], warnings = [''w'']\<rparr>) =
       ([(''a'', ''b'')],
        Some \<lparr>passed = True, errors = [],
              warnings = [''w'', ''Invalid key=value string: '' @ [CHR 0x27] @ ''noequals'' @ [CHR 0x27]]\<rparr>)
   \<and> pairs_to_dict [''a=b'', ''noequals''] None = ([(''a'', ''b'')], None)"
proof -
  have h1: "filter well_formed [''a=b'', ''noequals''] = [''a=b'']"
    by (simp add: well_formed_def CONFIG_STRING_ASSIGNMENT_SYMBOL_def)
  have h2: "filter malformed [''a=b'', ''noequals''] = [''noequals'']"
    by (simp add: malformed_def well_formed_def CONFIG_STRING_ASSIGNMENT_SYMBOL_def)
  have kv: "pair_key ''a=b'' = ''a''" "pair_value ''a=b'' = ''b''"
    by (simp_all add: pair_key_def pair_value_def CONFIG_STRING_ASSIGNMENT_SYMBOL_def)
  from pairs_to_dict_lenient [OF h1 h2, of "\<lparr>passed = True, errors = [], warnings = [''w'']\<rparr>"] h1 h2 kv
  show ?thesis by simp
qed


section \<open>Duplicate keys\<close>

lemma map_of_snoc_hit:
  "map_of (rev (xs @ (k, v) # ys)) k = Some v" if "k \<notin> fst ` set ys"
proof -
  have "map_of (rev ys) k = None" using that by (simp add: map_of_eq_None_iff)
  then show ?thesis by (simp add: map_add_def)
qed

text \<open>
  C6. Duplicate keys: parsing \<^verbatim>\<open>"a=1|a=2"\<close> with a result object gives the dictionary with
  the single entry \<^verbatim>\<open>a\<close> \<open>\<mapsto>\<close> \<^verbatim>\<open>"2"\<close> and leaves the result object as it was. In general,
  when a well-formed token \<open>q\<close> is followed by no well-formed token with the same key, the
  dictionary maps the key of \<open>q\<close> to the value of \<open>q\<close>, whatever came before, and \<open>q\<close>
  adds no warning: the result object is the one obtained without \<open>q\<close>.
\<close>

theorem duplicate_key_last_wins:
  assumes "well_formed q"
    and "\<forall>p\<in>set qs. well_formed p \<longrightarrow> pair_key p \<noteq> pair_key q"
  shows "config_string_to_dict (Some ''a=1|a=2'') (Some result) = ([(''a'', ''2'')], Some result)
       \<and> map_of (fst (pairs_to_dict (ps @ q # qs) res)) (pair_key q) = Some (pair_value q)
       \<and> snd (pairs_to_dict (ps @ q # qs) res) = snd (pairs_to_dict (ps @ qs) res)"
proof -
  have A: "config_string_to_dict (Some ''a=1|a=2'') (Some result) = ([(''a'', ''2'')], Some result)"
    by (simp add: config_string_to_dict_def pairs_to_dict_def
        CONFIG_STRING_SEPARATOR_SYMBOL_def CONFIG_STRING_ASSIGNMENT_SYMBOL_def
        dict_setitem_def)
  let ?kv = "\<lambda>p. (pair_key p, pair_value p)"
  have nk: "pair_key q \<notin> fst ` set (map ?kv (filter well_formed qs))"
    using assms(2) by auto
  have B: "map_of (fst (pairs_to_dict (ps @ q # qs) res)) (pair_key q) = Some (pair_value q)"
    unfolding pairs_to_dict_fst using assms(1) map_of_snoc_hit [OF nk] by simp
  have "\<not> malformed q" using assms(1) by (simp add: malformed_def)
  then have C: "snd (pairs_to_dict (ps @ q # qs) res) = snd (pairs_to_dict (ps @ qs) res)"
    by (simp add: pairs_to_dict_snd)
  from A B C show ?thesis by simp
qed

theorem duplicate_key_last_wins_witness:
  "well_formed ''a=2''
   \<and> map_of (fst (pairs_to_dict [''a=1'', ''a=2''] None)) ''a'' = Some ''2''
   \<and> snd (pairs_to_dict [''a=1'', ''a=2''] (Some \<lparr>passed = True, errors = [], warnings = []\<rparr>)) =
       Some \<lparr>passed = True, errors = [], warnings = []\<rparr>"
proof -
  have h1: "well_formed ''a=2''"
    by (simp add: well_formed_def CONFIG_STRING_ASSIGNMENT_SYMBOL_def)
  have h2: "\<forall>p\<in>set []. well_formed p \<longrightarrow> pair_key p \<noteq> pair_key ''a=2''" by simp
  have kv: "pair_key ''a=2'' = ''a''" "pair_value ''a=2'' = ''2''"
    by (simp_all add: pair_key_def pair_value_def CONFIG_STRING_ASSIGNMENT_SYMBOL_def)
  have w: "snd (pairs_to_dict [''a=1''] (Some \<lparr>passed = True, errors = [], warnings = []\<rparr>)) =
       Some \<lparr>passed = True, errors = [], warnings = []\<rparr>"
    by (simp add: pairs_to_dict_def CONFIG_STRING_ASSIGNMENT_SYMBOL_def)
  from duplicate_key_last_wins [OF h1 h2, of _ "[''a=1'']" None]
  have 1: "map_of (fst (pairs_to_dict [''a=1'', ''a=2''] None)) ''a'' = Some ''2''"
    using kv by simp
  from duplicate_key_last_wins [OF h1 h2, of _ "[''a=1'']" "Some \<lparr>passed = True, errors = [], warnings = []\<rparr>"]
  have 2: "snd (pairs_to_dict [''a=1'', ''a=2''] (Some \<lparr>passed = True, errors = [], warnings = []\<rparr>)) =
       Some \<lparr>passed = True, errors = [], warnings = []\<rparr>"
    using w by simp
  from h1 1 2 show ?thesis by simp
qed

section \<open>The entries of a returned dictionary\<close>

lemma pairs_to_dict_clean: "list_all clean_entry (fst (pairs_to_dict pairs result))"
  unfolding pairs_to_dict_def
  by (rule loop_invariant) (simp_all add: well_formed_clean)

lemma tasks_loop_clean:
  "list_all (list_all clean_entry) out \<Longrightarrow>
   list_all (list_all clean_entry) (tasks_loop strip t es out)"
  by (induction es arbitrary: out) (simp_all add: pairs_to_dict_clean)

lemma config_xml_to_dict_clean:
  "clean_value (fst (config_xml_to_dict fromstring strip tt tk contents result parse_job))"
  by (simp add: config_xml_to_dict_def xml_except_def clean_value_def pairs_to_dict_clean
      tasks_loop_clean split: sum.splits option.splits)

text \<open>
  C9. Every dictionary returned by \<^verbatim>\<open>pairs_to_dict\<close>, by \<^verbatim>\<open>config_string_to_dict\<close> and
  by \<^verbatim>\<open>config_xml_to_dict\<close> (a dictionary or a list of dictionaries, for every parser and
  every \<^verbatim>\<open>strip\<close>) has only non-empty keys and values, none of which contains the
  assignment symbol.
\<close>

theorem returned_entries_clean:
  "list_all clean_entry (fst (pairs_to_dict pairs result))
   \<and> list_all clean_entry (fst (config_string_to_dict string result))
   \<and> clean_value
        (fst (config_xml_to_dict fromstring strip tasks_tag task_tag contents res parse_job))"
  by (simp add: pairs_to_dict_clean config_xml_to_dict_clean config_string_to_dict_def
      split: option.splits)

theorem returned_entries_clean_witness:
  "fst (pairs_to_dict [''a=b'', ''=x'', ''c==d'', ''e=''] None) = [(''a'', ''b'')]
   \<and> list_all clean_entry (fst (pairs_to_dict [''a=b'', ''=x'', ''c==d'', ''e=''] None))"
proof -
  have e: "fst (pairs_to_dict [''a=b'', ''=x'', ''c==d'', ''e=''] None) = [(''a'', ''b'')]"
    by (simp add: pairs_to_dict_def CONFIG_STRING_ASSIGNMENT_SYMBOL_def dict_setitem_def)
  have c: "list_all clean_entry (fst (pairs_to_dict [''a=b'', ''=x'', ''c==d'', ''e=''] None))"
    by (rule returned_entries_clean [THEN conjunct1])
  from e c show ?thesis by (rule conjI)
qed

section \<open>Absent input text\<close>

text \<open>
  C5, as stated: for absent input text \<^verbatim>\<open>config_txt_to_string\<close> would return the empty
  string. It does not: the guard \<^verbatim>\<open>if string == None: return None\<close> hands the \<^verbatim>\<open>None\<close>
  back.
\<close>

theorem config_txt_to_string_null_counterexample:
  "config_txt_to_string None \<noteq> Some []"
  by (simp add: config_txt_to_string_def)

text \<open>
  C5, amended: for absent input text \<^verbatim>\<open>config_txt_to_string\<close> returns \<^verbatim>\<open>None\<close>, without
  raising; for the empty text it returns the empty string.
\<close>

theorem config_txt_to_string_null:
  "config_txt_to_string None = None \<and> config_txt_to_string (Some []) = Some []"
  by (simp add: config_txt_to_string_def splitlines_def)

section \<open>Parsing twice\<close>

lemma well_formed_plain:
  assumes "well_formed p" "CONFIG_STRING_SEPARATOR_SYMBOL \<notin> set p"
  shows "plain (pair_key p) \<and> plain (pair_value p)"
proof -
  from well_formed_split [OF assms(1)]
  have "pair_key p \<in> set (py_split CONFIG_STRING_ASSIGNMENT_SYMBOL p)"
       "pair_value p \<in> set (py_split CONFIG_STRING_ASSIGNMENT_SYMBOL p)" by simp_all
  with py_split_tokens_subset [of CONFIG_STRING_ASSIGNMENT_SYMBOL p]
  have "set (pair_key p) \<subseteq> set p" "set (pair_value p) \<subseteq> set p" by blast+
  with assms(2) have "CONFIG_STRING_SEPARATOR_SYMBOL \<notin> set (pair_key p)"
    "CONFIG_STRING_SEPARATOR_SYMBOL \<notin> set (pair_value p)" by blast+
  with well_formed_clean [OF assms(1)] show ?thesis
    by (simp add: plain_def clean_entry_def)
qed

lemma reparse:
  assumes "\<forall>p\<in>set pairs. well_formed p \<longrightarrow> CONFIG_STRING_SEPARATOR_SYMBOL \<notin> set p"
    and "distinct (map fst d)" and "map_of d = map_of (fst (pairs_to_dict pairs result))"
  shows "map_of (fst (pairs_to_dict (py_split CONFIG_STRING_SEPARATOR_SYMBOL (config_dict_to_string d)) result'))
         = map_of (fst (pairs_to_dict pairs result))"
proof -
  let ?d1 = "fst (pairs_to_dict pairs result)"
  have "list_all (\<lambda>kv. plain (fst kv) \<and> plain (snd kv)) ?d1"
    unfolding pairs_to_dict_def
    by (rule loop_invariant) (use assms(1) in \<open>simp_all add: well_formed_plain\<close>)
  moreover have "distinct (map fst ?d1)"
    unfolding pairs_to_dict_def by (rule distinct_loop) simp
  with assms(2,3) have "set d = set ?d1" by (simp add: map_of_inject_set)
  ultimately have "\<forall>(k, v)\<in>set d. plain k \<and> plain v"
    by (auto simp: list_all_iff)
  from roundtrip(1) [OF assms(2) this] assms(3) show ?thesis by simp
qed

text \<open>
  C8, as stated: parse, re-encode, split and parse again would give the first dictionary
  whenever the valid pairs have distinct keys. A token of the pairs list may contain the
  pair separator, though: \<^verbatim>\<open>"a=b|c"\<close> is a valid pair with the value \<^verbatim>\<open>"b|c"\<close>, and the
  second parse cuts that value.
\<close>

theorem reparse_idempotent_counterexample:
  "distinct (map pair_key (filter well_formed [''a=b|c'']))
   \<and> map_of (fst (pairs_to_dict
        (py_split CONFIG_STRING_SEPARATOR_SYMBOL
           (config_dict_to_string (fst (pairs_to_dict [''a=b|c''] None)))) None))
     \<noteq> map_of (fst (pairs_to_dict [''a=b|c''] None))"
proof -
  have 1: "fst (pairs_to_dict [''a=b|c''] None) = [(''a'', ''b|c'')]"
    by (simp add: pairs_to_dict_def CONFIG_STRING_ASSIGNMENT_SYMBOL_def dict_setitem_def)
  have 2: "config_dict_to_string [(''a'', ''b|c'')] = ''a=b|c''"
    by (simp add: config_dict_to_string_def CONFIG_STRING_ASSIGNMENT_SYMBOL_def)
  have 3: "fst (pairs_to_dict (py_split CONFIG_STRING_SEPARATOR_SYMBOL ''a=b|c'') None) = [(''a'', ''b'')]"
    by (simp add: pairs_to_dict_def CONFIG_STRING_ASSIGNMENT_SYMBOL_def
        CONFIG_STRING_SEPARATOR_SYMBOL_def dict_setitem_def)
  have "map_of [(''a'', ''b'')] ''a'' \<noteq> map_of [(''a'', ''b|c'')] ''a''" by simp
  then have ne: "map_of [(''a'', ''b'')] \<noteq> map_of [(''a'', ''b|c'')]" by metis
  have wf: "filter well_formed [''a=b|c''] = [''a=b|c'']"
    by (simp add: well_formed_def CONFIG_STRING_ASSIGNMENT_SYMBOL_def)
  have "distinct (map pair_key (filter well_formed [''a=b|c'']))"
    unfolding wf by simp
  moreover have "map_of (fst (pairs_to_dict
        (py_split CONFIG_STRING_SEPARATOR_SYMBOL
           (config_dict_to_string (fst (pairs_to_dict [''a=b|c''] None)))) None))
     \<noteq> map_of (fst (pairs_to_dict [''a=b|c''] None))"
    unfolding 1 2 3 by (rule ne)
  ultimately show ?thesis by (rule conjI)
qed

text \<open>
  C8, amended: for every pairs list whose valid pairs have pairwise distinct keys and contain
  no pair separator, parsing with \<^verbatim>\<open>pairs_to_dict\<close>, re-encoding with
  \<^verbatim>\<open>config_dict_to_string\<close>, splitting on the pair separator and parsing again yields the
  dictionary of the first parse. This holds for the dictionary as \<^verbatim>\<open>pairs_to_dict\<close> built it
  and for the same dictionary \<open>d\<close> in any other iteration order.
\<close>

theorem reparse_idempotent:
  assumes "distinct (map pair_key (filter well_formed pairs))"
    and "\<forall>p\<in>set pairs. well_formed p \<longrightarrow> CONFIG_STRING_SEPARATOR_SYMBOL \<notin> set p"
    and "distinct (map fst d)" and "map_of d = map_of (fst (pairs_to_dict pairs result))"
  shows "map_of (fst (pairs_to_dict
            (py_split CONFIG_STRING_SEPARATOR_SYMBOL
               (config_dict_to_string (fst (pairs_to_dict pairs result)))) result'))
           = map_of (fst (pairs_to_dict pairs result))
       \<and> map_of (fst (pairs_to_dict
            (py_split CONFIG_STRING_SEPARATOR_SYMBOL (config_dict_to_string d)) result'))
           = map_of (fst (pairs_to_dict pairs result))"
proof -
  have "distinct (map fst (fst (pairs_to_dict pairs result)))"
    unfolding pairs_to_dict_def by (rule distinct_loop) simp
  from reparse [OF assms(2) this refl] reparse [OF assms(2,3,4)] show ?thesis by simp
qed

theorem reparse_idempotent_witness:
  "distinct (map pair_key (filter well_formed [''a=1'', ''noequals'', ''b=2'']))
   \<and> fst (pairs_to_dict [''a=1'', ''noequals'', ''b=2''] None) = [(''a'', ''1''), (''b'', ''2'')]
   \<and> map_of (fst (pairs_to_dict
        (py_split CONFIG_STRING_SEPARATOR_SYMBOL (config_dict_to_string [(''a'', ''1''), (''b'', ''2'')]))
        None)) = map_of [(''a'', ''1''), (''b'', ''2'')]
   \<and> map_of (fst (pairs_to_dict
        (py_split CONFIG_STRING_SEPARATOR_SYMBOL (config_dict_to_string [(''b'', ''2''), (''a'', ''1'')]))
        None)) = map_of [(''a'', ''1''), (''b'', ''2'')]"
proof -
  let ?ps = "[''a=1'', ''noequals'', ''b=2'']"
  have wf: "filter well_formed ?ps = [''a=1'', ''b=2'']"
    by (simp add: well_formed_def CONFIG_STRING_ASSIGNMENT_SYMBOL_def)
  have h1: "distinct (map pair_key (filter well_formed ?ps))"
    unfolding wf by (simp add: pair_key_def CONFIG_STRING_ASSIGNMENT_SYMBOL_def)
  have h2: "\<forall>p\<in>set ?ps. well_formed p \<longrightarrow> CONFIG_STRING_SEPARATOR_SYMBOL \<notin> set p"
    by (simp add: CONFIG_STRING_SEPARATOR_SYMBOL_def)
  have d1: "fst (pairs_to_dict ?ps None) = [(''a'', ''1''), (''b'', ''2'')]"
    by (simp add: pairs_to_dict_def CONFIG_STRING_ASSIGNMENT_SYMBOL_def dict_setitem_def)
  have h3: "distinct (map fst [(''b'', ''2''), (''a'', ''1'')])" by simp
  have h4: "map_of [(''b'', ''2''), (''a'', ''1'')] = map_of (fst (pairs_to_dict ?ps None))"
    unfolding d1 by (rule ext) simp
  from reparse_idempotent [OF h1 h2 h3 h4, of None] h1 d1 show ?thesis by simp
qed

section \<open>XML documents that do not parse\<close>

lemma xml_failure:
  "fromstring contents = Inl exn \<Longrightarrow>
   config_xml_to_dict fromstring strip tt tk contents result parse_job =
     (Dict [], result\<lparr>passed := False, errors := errors result @ [''An error occurred while parsing XML file'']\<rparr>)"
  by (simp add: config_xml_to_dict_def xml_except_def add_error_def)

text \<open>
  C2. When the parser raises, \<^verbatim>\<open>config_xml_to_dict\<close> marks the result object as failed,
  appends one error and raises nothing. What it returns is \<^verbatim>\<open>dict()\<close> on both paths: with
  \<^verbatim>\<open>parse_job=False\<close> the value is an empty dictionary, not the empty list that the specification
  and the docstring's \<^verbatim>\<open>:rtype:\<close> (list of \<^verbatim>\<open>dict\<close>) announce. The parser here fails on the
  truncated document \<^verbatim>\<open><job>\<close>.
\<close>

theorem xml_failure_returns_dict_for_tasks:
  "config_xml_to_dict
     (\<lambda>s. if s = ''<job>'' then Inl () else Inr (Element ''job'' None []))
     str_strip ''tasks'' ''task'' ''<job>'' \<lparr>passed = True, errors = [], warnings = []\<rparr> False
   = (Dict [], \<lparr>passed = False, errors = [''An error occurred while parsing XML file''], warnings = []\<rparr>)
   \<and> Dict [] \<noteq> DictList []"
  by (simp add: config_xml_to_dict_def xml_except_def add_error_def)

section \<open>Task elements\<close>

lemma tasks_loop_eq:
  "tasks_loop strip tk es out =
     out @ map (\<lambda>task. fst (pairs_to_dict (task_pairs strip (children task) []) None))
             (filter (\<lambda>e. tag e = tk) es)"
  by (induction es arbitrary: out) simp_all

lemma find_child_Some: "find_child t es = Some e \<Longrightarrow> e \<in> set es \<and> tag e = t"
  by (induction es) (auto split: if_splits)

text \<open>
  C7. For a document that parses and whose root has a tasks element (\<open>tasks\<close>, the first
  child of the root with the tasks tag), \<^verbatim>\<open>config_xml_to_dict\<close> with \<^verbatim>\<open>parse_job=False\<close>
  returns the list with one dictionary for each child of the tasks element whose tag is the
  task tag, in the order of these children; the result object is untouched.
\<close>

theorem tasks_in_document_order:
  assumes "fromstring contents = Inr xml_root"
    and "find_child tasks_tag (children xml_root) = Some tasks"
  shows "config_xml_to_dict fromstring strip tasks_tag task_tag contents result False =
           (DictList (map (\<lambda>task. fst (pairs_to_dict (task_pairs strip (children task) []) None))
                        (filter (\<lambda>e. tag e = task_tag) (children tasks))),
            result)
       \<and> tasks \<in> set (children xml_root) \<and> tag tasks = tasks_tag"
  using assms find_child_Some [OF assms(2)] by (simp add: config_xml_to_dict_def tasks_loop_eq)

theorem tasks_in_document_order_witness:
  "config_xml_to_dict
     (\<lambda>s. Inr (Element ''job'' None
        [Element ''k'' (Some ''v'') [],
         Element ''tasks'' None
           [Element ''task'' None [Element ''a'' (Some ''1'') []],
            Element ''other'' None [Element ''a'' (Some ''x'') []],
            Element ''task'' None [Element ''a'' (Some ''2'') [], Element ''b'' None []]]]) :: unit + element)
     str_strip ''tasks'' ''task'' ''<job>...</job>'' \<lparr>passed = True, errors = [], warnings = []\<rparr> False
   = (DictList [[(''a'', ''1'')], [(''a'', ''2'')]], \<lparr>passed = True, errors = [], warnings = []\<rparr>)"
proof -
  let ?tasks = "Element ''tasks'' None
           [Element ''task'' None [Element ''a'' (Some ''1'') []],
            Element ''other'' None [Element ''a'' (Some ''x'') []],
            Element ''task'' None [Element ''a'' (Some ''2'') [], Element ''b'' None []]]"
  let ?root = "Element ''job'' None [Element ''k'' (Some ''v'') [], ?tasks]"
  let ?f = "\<lambda>s::string. Inr ?root :: unit + element"
  have h1: "?f ''<job>...</job>'' = Inr ?root" by simp
  have h2: "find_child ''tasks'' (children ?root) = Some ?tasks" by simp
  have ev: "map (\<lambda>task. fst (pairs_to_dict (task_pairs str_strip (children task) []) None))
              (filter (\<lambda>e. tag e = ''task'') (children ?tasks)) = [[(''a'', ''1'')], [(''a'', ''2'')]]"
    by (simp add: pairs_to_dict_def CONFIG_STRING_ASSIGNMENT_SYMBOL_def dict_setitem_def
        str_strip_def str_isspace_def)
  show ?thesis
    using tasks_in_document_order [of ?f "''<job>...</job>''" ?root "''tasks''" ?tasks str_strip
        "''task''" "\<lparr>passed = True, errors = [], warnings = []\<rparr>", OF h1 h2, THEN conjunct1]
    unfolding ev .
qed


section \<open>Whitespace-only elements on the job path\<close>

lemma job_pairs_eq:
  "job_pairs strip tt es acc =
     acc @ map (\<lambda>e. tag e @ CONFIG_STRING_ASSIGNMENT_SYMBOL # strip (the (elem_text e)))
             (filter (\<lambda>e. tag e \<noteq> tt \<and> elem_text e \<noteq> None) es)"
  by (induction es arbitrary: acc) simp_all

text \<open>A byte string of ASCII whitespace only strips to the empty string.\<close>

lemma str_strip_whitespace: "\<forall>c\<in>set t. str_isspace c \<Longrightarrow> str_strip t = []"
proof -
  assume "\<forall>c\<in>set t. str_isspace c"
  then have D: "dropWhile str_isspace t = []" by (simp only: dropWhile_eq_Nil_conv)
  show ?thesis unfolding str_strip_def D by simp
qed

lemma trailing_assignment_not_well_formed:
  "\<not> well_formed (tg @ [CONFIG_STRING_ASSIGNMENT_SYMBOL])"
proof
  assume w: "well_formed (tg @ [CONFIG_STRING_ASSIGNMENT_SYMBOL])"
  have "py_split CONFIG_STRING_ASSIGNMENT_SYMBOL (tg @ [CONFIG_STRING_ASSIGNMENT_SYMBOL]) =
          py_split CONFIG_STRING_ASSIGNMENT_SYMBOL tg @ [[]]"
    using py_split_append [of CONFIG_STRING_ASSIGNMENT_SYMBOL tg "[]"] by simp
  with well_formed_split [OF w]
  have "pair_value (tg @ [CONFIG_STRING_ASSIGNMENT_SYMBOL]) = []"
    by (cases "py_split CONFIG_STRING_ASSIGNMENT_SYMBOL tg") (auto simp: py_split_not_Nil)
  moreover from well_formed_clean [OF w]
  have "pair_value (tg @ [CONFIG_STRING_ASSIGNMENT_SYMBOL]) \<noteq> []"
    by (simp add: clean_entry_def)
  ultimately show False by simp
qed

lemma pairs_to_dict_skip:
  "\<not> well_formed t \<Longrightarrow> fst (pairs_to_dict (xs @ t # ys) r) = fst (pairs_to_dict (xs @ ys) r')"
  by (simp add: pairs_to_dict_def loop_fst)

text \<open>
  C10. On the job path the tokens are parsed without the result object. A child of the root
  whose text is present but consists of whitespace only, so that \<^verbatim>\<open>elem.text.strip()\<close> is the
  empty string (whichever characters the \<^verbatim>\<open>strip\<close> at hand counts as whitespace, ASCII or
  Unicode), contributes the token \<^verbatim>\<open>tag=\<close>, which is not a valid pair: the call returns what
  it returns for the document without that child, and the result object passed to the call
  comes back unchanged, with no warning.
\<close>

theorem whitespace_element_omitted:
  assumes "fromstring contents = Inr (Element root_tag root_text (before @ elem # after))"
    and "fromstring contents' = Inr (Element root_tag root_text (before @ after))"
    and "elem_text elem = Some t" and "strip t = []"
  shows "config_xml_to_dict fromstring strip tasks_tag task_tag contents result True =
           config_xml_to_dict fromstring strip tasks_tag task_tag contents' result True
       \<and> snd (config_xml_to_dict fromstring strip tasks_tag task_tag contents result True) = result"
proof -
  let ?enc = "\<lambda>e. tag e @ CONFIG_STRING_ASSIGNMENT_SYMBOL # strip (the (elem_text e))"
  let ?keep = "\<lambda>e. tag e \<noteq> tasks_tag \<and> elem_text e \<noteq> None"
  have tok: "?enc elem = tag elem @ [CONFIG_STRING_ASSIGNMENT_SYMBOL]"
    using assms(3,4) by simp
  have "fst (pairs_to_dict (job_pairs strip tasks_tag (before @ elem # after) []) None) =
        fst (pairs_to_dict (job_pairs strip tasks_tag (before @ after) []) None)"
  proof (cases "?keep elem")
    case True
    then show ?thesis
      unfolding job_pairs_eq
      by (simp add: tok pairs_to_dict_skip [OF trailing_assignment_not_well_formed])
  next
    case False
    then show ?thesis unfolding job_pairs_eq by auto
  qed
  then show ?thesis using assms(1,2) by (simp add: config_xml_to_dict_def)
qed

text \<open>
  An instance: the text of \<^verbatim>\<open>b\<close> is U+00A0 followed by U+3000 (a no-break space and an
  ideographic space, here in UTF-8), which \<^verbatim>\<open>unicode.strip\<close> empties; the other texts are
  ASCII and are stripped as byte strings.
\<close>

theorem whitespace_element_omitted_witness:
  "config_xml_to_dict
     (\<lambda>s. if s = ''with''
           then Inr (Element ''job'' None
                  [Element ''a'' (Some ''1'') [],
                   Element ''b'' (Some [CHR 0xC2, CHR 0xA0, CHR 0xE3, CHR 0x80, CHR 0x80]) [],
                   Element ''c'' (Some '' 3 '') []])
           else Inr (Element ''job'' None
                  [Element ''a'' (Some ''1'') [], Element ''c'' (Some '' 3 '') []]) :: unit + element)
     (\<lambda>s. if s = [CHR 0xC2, CHR 0xA0, CHR 0xE3, CHR 0x80, CHR 0x80] then [] else str_strip s)
     ''tasks'' ''task'' ''with'' \<lparr>passed = True, errors = [], warnings = []\<rparr> True
   = (Dict [(''a'', ''1''), (''c'', ''3'')], \<lparr>passed = True, errors = [], warnings = []\<rparr>)"
proof -
  let ?t = "[CHR 0xC2, CHR 0xA0, CHR 0xE3, CHR 0x80, CHR 0x80]"
  let ?b = "Element ''b'' (Some ?t) []"
  let ?before = "[Element ''a'' (Some ''1'') []]"
  let ?after = "[Element ''c'' (Some '' 3 '') []]"
  let ?f = "\<lambda>s. if s = ''with''
           then Inr (Element ''job'' None
                  [Element ''a'' (Some ''1'') [],
                   Element ''b'' (Some [CHR 0xC2, CHR 0xA0, CHR 0xE3, CHR 0x80, CHR 0x80]) [],
                   Element ''c'' (Some '' 3 '') []])
           else Inr (Element ''job'' None
                  [Element ''a'' (Some ''1'') [], Element ''c'' (Some '' 3 '') []]) :: unit + element"
  let ?strip = "\<lambda>s. if s = [CHR 0xC2, CHR 0xA0, CHR 0xE3, CHR 0x80, CHR 0x80] then [] else str_strip s"
  let ?r = "\<lparr>passed = True, errors = [], warnings = []\<rparr>"
  have h1: "?f ''with'' = Inr (Element ''job'' None (?before @ ?b # ?after))" by simp
  have h2: "?f ''without'' = Inr (Element ''job'' None (?before @ ?after))" by simp
  have h3: "elem_text ?b = Some ?t" by simp
  have h4: "?strip ?t = []" by simp
  have ev: "config_xml_to_dict ?f ?strip ''tasks'' ''task'' ''without'' ?r True
            = (Dict [(''a'', ''1''), (''c'', ''3'')], ?r)"
    by (simp add: config_xml_to_dict_def pairs_to_dict_def CONFIG_STRING_ASSIGNMENT_SYMBOL_def
        dict_setitem_def str_strip_def str_isspace_def)
  from whitespace_element_omitted [of ?f "''with''" "''job''" None ?before ?b ?after "''without''"
      ?t ?strip "''tasks''" "''task''" ?r, OF h1 h2 h3 h4]
  show ?thesis unfolding ev by simp
qed

section \<open>Rounding to binary64\<close>

lemma bitlen_bounds: "0 < n \<Longrightarrow> 2 ^ (bitlen n - 1) \<le> n \<and> n < 2 ^ bitlen n"
proof (induction n rule: bitlen.induct)
  case (1 n)
  show ?case
  proof (cases "n div 2 = 0")
    case True
    with "1.prems" have "n = 1" by presburger
    then show ?thesis by (simp add: bitlen.simps)
  next
    case False
    then have pos: "0 < n div 2" by simp
    from "1.prems" have ne: "n \<noteq> 0" by simp
    from "1.IH" [OF ne pos]
    have lo: "2 ^ (bitlen (n div 2) - 1) \<le> n div 2" and hi: "n div 2 < 2 ^ bitlen (n div 2)"
      by simp_all
    have b: "bitlen n = Suc (bitlen (n div 2))"
      using ne by (subst bitlen.simps) simp
    have bpos: "0 < bitlen (n div 2)"
      using False by (subst bitlen.simps) simp
    then obtain k where k: "bitlen (n div 2) = Suc k" by (cases "bitlen (n div 2)") auto
    from lo k have "2 * 2 ^ k \<le> 2 * (n div 2)" by simp
    also have "\<dots> \<le> n" by presburger
    finally have lo': "2 ^ (bitlen n - 1) \<le> n" using b k by simp
    from hi have "n div 2 + 1 \<le> 2 ^ bitlen (n div 2)" by simp
    then have "2 * (n div 2) + 2 \<le> 2 * 2 ^ bitlen (n div 2)" by simp
    moreover have "n < 2 * (n div 2) + 2" by presburger
    ultimately have "n < 2 ^ bitlen n" using b by simp
    with lo' show ?thesis by simp
  qed
qed

lemma bitlen_pos: "0 < n \<Longrightarrow> 0 < bitlen n"
  by (subst bitlen.simps) simp

lemma ilog2_bounds:
  assumes "0 < x"
  shows "2 powi (ilog2 x) \<le> x \<and> x < 2 powi (ilog2 x + 1)"
proof (cases "1 \<le> x")
  case True
  define n where "n = nat \<lfloor>x\<rfloor>"
  from True have n1: "0 < n" unfolding n_def by (simp add: le_floor_iff)
  have nx: "rat_of_nat n \<le> x" and xn: "x < rat_of_nat n + 1"
  proof -
    from True have f0: "0 \<le> \<lfloor>x\<rfloor>" by simp
    then have "rat_of_nat n = rat_of_int \<lfloor>x\<rfloor>" unfolding n_def by simp
    moreover have "rat_of_int \<lfloor>x\<rfloor> \<le> x" "x < rat_of_int \<lfloor>x\<rfloor> + 1" by linarith+
    ultimately show "rat_of_nat n \<le> x" "x < rat_of_nat n + 1" by simp_all
  qed
  from bitlen_bounds [OF n1] have lo: "2 ^ (bitlen n - 1) \<le> n" and hi: "n < 2 ^ bitlen n"
    by simp_all
  from bitlen_pos [OF n1] obtain k where k: "bitlen n = Suc k" by (cases "bitlen n") auto
  have il: "ilog2 x = int k" using True k by (simp add: ilog2_def n_def)
  from lo k have "2 ^ k \<le> n" by simp
  then have "rat_of_nat (2 ^ k) \<le> rat_of_nat n" by (simp only: of_nat_le_iff)
  then have "(2::rat) ^ k \<le> rat_of_nat n" by simp
  with nx have A: "(2::rat) ^ k \<le> x" by linarith
  from hi k have "n + 1 \<le> 2 ^ Suc k" by simp
  then have "rat_of_nat (n + 1) \<le> rat_of_nat (2 ^ Suc k)" by (simp only: of_nat_le_iff)
  then have "rat_of_nat n + 1 \<le> (2::rat) ^ Suc k" by simp
  with xn have B: "x < (2::rat) ^ Suc k" by linarith
  have "2 powi (int k + 1) = (2::rat) ^ Suc k"
    by (metis of_nat_Suc power_int_of_nat add.commute)
  with A B il show ?thesis by simp
next
  case False
  define c where "c = \<lceil>1 / x\<rceil>"
  define m where "m = nat (c - 1)"
  have y1: "1 < 1 / x" using assms False by simp
  have cc: "rat_of_int c - 1 < 1 / x" "1 / x \<le> rat_of_int c"
    unfolding c_def using ceiling_correct [of "1 / x"] by simp_all
  from y1 cc(2) have "rat_of_int 1 < rat_of_int c" by simp
  then have c2: "2 \<le> c" by (simp only: of_int_less_iff)
  then have m1: "0 < m" unfolding m_def by simp
  have mi: "int m = c - 1" using c2 unfolding m_def by simp
  have "rat_of_nat m = rat_of_int (int m)" by simp
  also have "\<dots> = rat_of_int c - 1" by (simp only: mi of_int_diff of_int_1)
  finally have mc: "rat_of_nat m = rat_of_int c - 1" .
  have my: "rat_of_nat m < 1 / x" using mc cc(1) by simp
  have ym: "1 / x \<le> rat_of_nat m + 1" using mc cc(2) by simp
  from bitlen_bounds [OF m1] have lo: "2 ^ (bitlen m - 1) \<le> m" and hi: "m < 2 ^ bitlen m"
    by simp_all
  from bitlen_pos [OF m1] obtain k where k: "bitlen m = Suc k" by (cases "bitlen m") auto
  have il: "ilog2 x = - int (Suc k)" using False k by (simp add: ilog2_def m_def c_def)
  from lo k have "2 ^ k \<le> m" by simp
  then have "rat_of_nat (2 ^ k) \<le> rat_of_nat m" by (simp only: of_nat_le_iff)
  then have "(2::rat) ^ k \<le> rat_of_nat m" by simp
  with my have A: "(2::rat) ^ k < 1 / x" by linarith
  from hi k have "m + 1 \<le> 2 ^ Suc k" by simp
  then have "rat_of_nat (m + 1) \<le> rat_of_nat (2 ^ Suc k)" by (simp only: of_nat_le_iff)
  then have "rat_of_nat m + 1 \<le> (2::rat) ^ Suc k" by simp
  with ym have B: "1 / x \<le> (2::rat) ^ Suc k" by linarith
  from A assms have A': "x < 1 / 2 ^ k"
    by (simp add: field_simps)
  from B assms have B': "1 / 2 ^ Suc k \<le> x"
    by (simp add: field_simps)
  have p1: "2 powi (- int (Suc k)) = 1 / (2::rat) ^ Suc k"
    by (simp only: power_int_minus_divide power_int_of_nat)
  have p2: "2 powi (- int (Suc k) + 1) = 1 / (2::rat) ^ k"
  proof -
    have "- int (Suc k) + 1 = - int k" by simp
    then show ?thesis by (simp only: power_int_minus_divide power_int_of_nat)
  qed
  from A' B' il p1 p2 show ?thesis by simp
qed

lemma ilog2_unique:
  assumes "2 powi e \<le> x" "x < 2 powi (e + 1)"
  shows "ilog2 x = e"
proof -
  have "(0::rat) < 2 powi e" by simp
  with assms have pos: "0 < x" by linarith
  from ilog2_bounds [OF pos] have lo: "2 powi (ilog2 x) \<le> x" and hi: "x < 2 powi (ilog2 x + 1)"
    by simp_all
  show ?thesis
  proof (rule ccontr)
    assume ne: "ilog2 x \<noteq> e"
    show False
    proof (cases "ilog2 x < e")
      case True
      then have "ilog2 x + 1 \<le> e" by simp
      then have "(2::rat) powi (ilog2 x + 1) \<le> 2 powi e" by (intro power_int_increasing) simp_all
      with hi assms show False by linarith
    next
      case False
      with ne have "e + 1 \<le> ilog2 x" by simp
      then have "(2::rat) powi (e + 1) \<le> 2 powi (ilog2 x)" by (intro power_int_increasing) simp_all
      with lo assms show False by linarith
    qed
  qed
qed

text \<open>
  The exponent that \<open>fl\<close> computes is the one of the binary64 format: the significand
  \<open>x / 2 ^ e\<close> is rounded where it lies between \<open>2 ^ 52\<close> and \<open>2 ^ 53\<close>, and rounding
  moves it by half a unit at most.
\<close>

lemma fl_significand:
  assumes "2 ^ 52 \<le> \<bar>x\<bar> / 2 powi e" "\<bar>x\<bar> / 2 powi e < 2 ^ 53"
  shows "fl x = of_int (round_half_even (x / 2 powi e)) * 2 powi e"
proof -
  have pe: "(0::rat) < 2 powi e" by simp
  from assms(1) pe have ne: "x \<noteq> 0" by auto
  have "2 powi (e + 52) = (2::rat) powi e * 2 ^ 52"
    by (simp add: power_int_add)
  moreover have "2 powi (e + 52 + 1) = (2::rat) powi e * 2 ^ 53"
    by (simp add: power_int_add)
  ultimately have "2 powi (e + 52) \<le> \<bar>x\<bar>" "\<bar>x\<bar> < 2 powi (e + 52 + 1)"
    using assms pe by (simp_all add: field_simps)
  then have "ilog2 \<bar>x\<bar> = e + 52" by (rule ilog2_unique)
  then show ?thesis using ne by (simp add: fl_def)
qed

lemma round_half_even_nearest: "\<bar>rat_of_int (round_half_even x) - x\<bar> \<le> 1 / 2"
proof -
  define f where "f = \<lfloor>x\<rfloor>"
  have b: "rat_of_int f \<le> x" "x < rat_of_int f + 1" unfolding f_def by linarith+
  consider "x - rat_of_int f < 1 / 2" | "1 / 2 < x - rat_of_int f" | "x - rat_of_int f = 1 / 2"
    by linarith
  then show ?thesis
  proof cases
    case 1
    then have "round_half_even x = f" by (simp add: round_half_even_def f_def)
    with b 1 show ?thesis by simp
  next
    case 2
    then have "round_half_even x = f + 1" by (simp add: round_half_even_def f_def)
    with b 2 show ?thesis by simp
  next
    case 3
    then have "round_half_even x = f \<or> round_half_even x = f + 1"
      by (simp add: round_half_even_def f_def Let_def)
    with b 3 show ?thesis by auto
  qed
qed

lemma round_half_even_int: "round_half_even (rat_of_int n) = n"
  by (simp add: round_half_even_def)

lemma bitlen_0: "bitlen 0 = 0" by (simp add: bitlen.simps)
lemma bitlen_1: "bitlen (Suc 0) = Suc 0" by (simp add: bitlen.simps)
lemma bitlen_numeral: "bitlen (numeral k) = Suc (bitlen (numeral k div 2))"
  by (subst bitlen.simps) simp

lemma floor_rat_numeral_quotient:
  "\<lfloor>numeral a / numeral b :: rat\<rfloor> = numeral a div numeral b"
  by (metis floor_divide_of_int_eq of_int_numeral)

lemma ceiling_rat_numeral_quotient:
  "\<lceil>numeral a / numeral b :: rat\<rceil> = - (- numeral a div numeral b)"
  by (metis ceiling_divide_eq_div of_int_numeral)

lemmas fl_eval = fl_def ilog2_def round_half_even_def Let_def bitlen_0 bitlen_1 bitlen_numeral
  floor_rat_numeral_quotient ceiling_rat_numeral_quotient

lemmas num_eval = float_literal_def to_float_def num_div_def num_mul_def num_sub_def
  math_floor_def py_int_def

lemma replicate_numeral: "replicate (numeral k) x = x # replicate (pred_numeral k) x"
  by (simp add: numeral_eq_Suc)

lemmas format_eval = format_d_def format_3f_def zero_pad_def digits.simps replicate_numeral

section \<open>The time formatters on the documented examples\<close>

lemma fl_3612_345: "fl (3612345 / 1000) = 7943630662076989 / 2 ^ 41"
  by (simp add: fl_eval)

lemma fl_3612_345_below: "fl (3612345 / 1000) < 3612345 / 1000"
  unfolding fl_3612_345 by simp

lemma time_format_examples:
  "time_to_ssmmm (float_literal (12345678 / 1000000)) = ''12.346''"
  "time_to_srt (float_literal (83456789 / 1000000)) = ''00:01:23,456''"
  "time_to_hhmmssmmm (PyInt 12) ''.'' = ''00:00:12.000''"
  unfolding time_to_ssmmm_def time_to_srt_def time_to_hhmmssmmm_def format_3f_def Let_def
  by (simp_all add: num_eval fl_eval format_eval)

text \<open>
  C4. Of the four examples, three come out as stated (\<open>time_format_examples\<close> above). The
  fourth does not: \<^verbatim>\<open>time_to_hhmmssmmm(3612.345)\<close> is \<^verbatim>\<open>"01:00:12.344"\<close>, where the specification and
  the docstring (\<^verbatim>\<open>3612.345  => 01:00:12.345\<close>) say \<^verbatim>\<open>"01:00:12.345"\<close>. The float nearest to
  3612.345 lies just below it (\<open>fl_3612_345_below\<close>); the subtractions of 3600 and of 12
  are exact, and \<^verbatim>\<open>math.floor\<close> of the remaining 344.9999999998 milliseconds is 344.
\<close>

theorem time_to_hhmmssmmm_3612_345: "time_to_hhmmssmmm (float_literal (3612345 / 1000)) ''.'' = ''01:00:12.344''"
  unfolding time_to_hhmmssmmm_def Let_def
  by (simp add: num_eval fl_eval format_eval)

end
